theory Spec2Isabelle
  imports Main
begin

section \<open>The Event resource and its store\<close>

text \<open>
  The route module \<^verbatim>\<open>06-database-integration/routes/events.py\<close> maps six HTTP
  operations to calls on an object-relational \<^verbatim>\<open>Session\<close>. The handlers are embedded
  line by line; the session they call is an explicit state that each handler takes and
  returns.

  The declarations of \<^verbatim>\<open>Event\<close> and \<^verbatim>\<open>EventUpdate\<close> (\<^verbatim>\<open>models/events.py\<close>)
  are not among the sources. What the handlers use of them is kept and the rest is a
  parameter: an \<^verbatim>\<open>Event\<close> has an integer primary key (unset on an object that was never
  stored) and columns, whose names are the type \<open>'f\<close> and whose values are the type
  \<open>'v\<close> (a null is a value of \<open>'v\<close>). The attribute \<^verbatim>\<open>id\<close> is \<open>event_id\<close> here,
  and a handler's parameter \<^verbatim>\<open>id\<close> is \<open>i\<close>.
\<close>

datatype error =
    HTTPException nat string
  | OverflowError
  | IntegrityError
  | StaleDataError
  | InvalidRequestError

definition HTTP_404_NOT_FOUND :: nat where
  "HTTP_404_NOT_FOUND = 404"

record ('f, 'v) Event =
  event_id :: "int option"
  cols :: "'f \<Rightarrow> 'v"

text \<open>
  An \<^verbatim>\<open>EventUpdate\<close> payload holds a value for each of its fields (the default where
  the request did not give one) and the set of the fields the request gave explicitly
  (\<^verbatim>\<open>model_fields_set\<close>).
\<close>

record ('f, 'v) EventUpdate =
  field_values :: "'f \<Rightarrow> 'v"
  model_fields_set :: "'f set"

text \<open>
  \<^verbatim>\<open>new_data.model_dump(exclude_unset=True)\<close>: the dictionary of the explicitly set
  fields, in the order the class declares them. The declared fields are the parameter
  \<open>model_fields\<close>.
\<close>

definition model_dump_exclude_unset ::
    "'f list \<Rightarrow> ('f, 'v) EventUpdate \<Rightarrow> ('f \<times> 'v) list" where
  "model_dump_exclude_unset model_fields new_data =
     [(key, field_values new_data key). key \<leftarrow> model_fields, key \<in> model_fields_set new_data]"

definition setattr :: "('f, 'v) Event \<Rightarrow> 'f \<Rightarrow> 'v \<Rightarrow> ('f, 'v) Event" where
  "setattr event key val = event\<lparr>cols := (cols event)(key := val)\<rparr>"

text \<open>
  The Event table: its rows in the order a \<^verbatim>\<open>select\<close> lists them, each a primary key
  with the columns. A response body \<^verbatim>\<open>{"message": ...}\<close> is a dictionary of strings.
\<close>

type_synonym ('f, 'v) table = "(int \<times> ('f \<Rightarrow> 'v)) list"

type_synonym message = "(string \<times> string) list"

definition row_object :: "int \<times> ('f \<Rightarrow> 'v) \<Rightarrow> ('f, 'v) Event" where
  "row_object r = \<lparr>event_id = Some (fst r), cols = snd r\<rparr>"

section \<open>The store and the session\<close>

text \<open>
  Modelled from the spec: \<^verbatim>\<open>database/connection.py\<close> (the engine and
  \<^verbatim>\<open>get_session\<close>) is not among the sources. The spec's store is "a simple relational
  persistence layer" with one table whose rows are fetched "by primary key". It is taken
  as the file database of such a tutorial: the integer primary key is a signed 64-bit
  integer, and an integer outside that range cannot be bound to a statement
  (\<^verbatim>\<open>OverflowError\<close>); a \<^verbatim>\<open>select\<close> without an order lists the rows by key.

  Two things stay parameters of the engine: \<open>keygen\<close>, the generator of a primary key
  for a row inserted without one, from the keys in use; and \<open>accepts\<close>, the constraints
  that the absent declaration of the table puts on the columns of a row (a column that
  must not be null, say).
\<close>

definition in_key_range :: "int \<Rightarrow> bool" where
  "in_key_range k = (- (2 ^ 63) \<le> k \<and> k < 2 ^ 63)"

record ('f, 'v) Engine =
  keygen :: "int list \<Rightarrow> int"
  accepts :: "('f \<Rightarrow> 'v) \<Rightarrow> bool"

text \<open>
  The session is a unit of work over the table. \<open>db\<close> is the committed table,
  \<open>bind\<close> the engine, \<open>identity_map\<close> the primary keys of the objects the session
  has loaded or stored, and \<open>pending\<close> the statements staged until the next commit.

  Objects are values: where the source changes a loaded object in place and hands it to
  \<^verbatim>\<open>session.add\<close>, the model hands the changed value to \<open>session_add\<close>, which
  stages the write.
\<close>

datatype ('f, 'v) statement =
    INSERT "int option" "'f \<Rightarrow> 'v"
  | UPDATE int "'f \<Rightarrow> 'v"
  | DELETE int

record ('f, 'v) Session =
  db :: "('f, 'v) table"
  bind :: "('f, 'v) Engine"
  identity_map :: "int list"
  pending :: "('f, 'v) statement list"

text \<open>
  Modelled from the spec: \<^verbatim>\<open>database.connection.get_session\<close> is not among the
  sources. The spec's session is "a unit-of-work object mediating reads/writes against
  the relational store", with "no transactions spanning multiple operations": every
  request is given a session of its own over the stored table, with no object loaded and
  nothing staged.
\<close>

definition get_session :: "('f, 'v) Engine \<Rightarrow> ('f, 'v) table \<Rightarrow> ('f, 'v) Session" where
  "get_session g t = \<lparr>db = t, bind = g, identity_map = [], pending = []\<rparr>"

text \<open>
  \<^verbatim>\<open>session.get(Event, id)\<close>: the row with that primary key; \<^verbatim>\<open>None\<close> when no row
  has it; and the exception of the driver when the key, which the handlers pass on as
  they receive it, is no row's and cannot be bound.
\<close>

definition session_get ::
    "('f, 'v) Session \<Rightarrow> int \<Rightarrow> (error + ('f, 'v) Event option) \<times> ('f, 'v) Session" where
  "session_get s i =
     (case map_of (db s) i of
        Some c \<Rightarrow> (Inr (Some (row_object (i, c))), s\<lparr>identity_map := i # identity_map s\<rparr>)
      | None \<Rightarrow>
          if in_key_range i then (Inr None, s) else (Inl OverflowError, s))"

text \<open>\<^verbatim>\<open>session.exec(select(Event)).all()\<close>: every row of the table, as a list.\<close>

definition session_exec_select_all ::
    "('f, 'v) Session \<Rightarrow> ('f, 'v) Event list \<times> ('f, 'v) Session" where
  "session_exec_select_all s =
     (map row_object (db s), s\<lparr>identity_map := map fst (db s) @ identity_map s\<rparr>)"

text \<open>
  \<^verbatim>\<open>session.add(obj)\<close>: an object the session has loaded is written back with an
  UPDATE at the next commit, any other object is stored with an INSERT.
\<close>

definition session_add :: "('f, 'v) Session \<Rightarrow> ('f, 'v) Event \<Rightarrow> ('f, 'v) Session" where
  "session_add s obj =
     (case event_id obj of
        None \<Rightarrow> s\<lparr>pending := pending s @ [INSERT None (cols obj)]\<rparr>
      | Some k \<Rightarrow>
          if k \<in> set (identity_map s)
          then s\<lparr>pending := pending s @ [UPDATE k (cols obj)]\<rparr>
          else s\<lparr>pending := pending s @ [INSERT (Some k) (cols obj)]\<rparr>)"

text \<open>
  \<^verbatim>\<open>session.delete(obj)\<close>: stages a DELETE of an object the session has loaded, and
  raises for any other object.
\<close>

definition session_delete ::
    "('f, 'v) Session \<Rightarrow> ('f, 'v) Event \<Rightarrow> error + ('f, 'v) Session" where
  "session_delete s obj =
     (case event_id obj of
        None \<Rightarrow> Inl InvalidRequestError
      | Some k \<Rightarrow>
          if k \<in> set (identity_map s)
          then Inr (s\<lparr>pending := pending s @ [DELETE k]\<rparr>)
          else Inl InvalidRequestError)"

text \<open>
  The primary key that an INSERT stores a row under: the object's own, or a generated one.
\<close>

definition assigned_key :: "(int list \<Rightarrow> int) \<Rightarrow> ('f, 'v) table \<Rightarrow> int option \<Rightarrow> int" where
  "assigned_key gen t ko = (case ko of None \<Rightarrow> gen (map fst t) | Some k \<Rightarrow> k)"

text \<open>
  One statement against the table, with the identity map that results.

  An INSERT fails when its key cannot be bound, when a row has the key already (the key
  is unique), and when the table does not accept the columns; otherwise the row takes
  its place in key order. An UPDATE that matches no row is stale; an object whose
  columns are those of its row has nothing to write and no statement is sent for it;
  changed columns are written unless the table does not accept them. A DELETE removes
  the rows with the key. The keys of an UPDATE and a DELETE are those of loaded rows.
\<close>

fun flush_statement ::
    "('f, 'v) Engine \<Rightarrow> ('f, 'v) statement \<Rightarrow> ('f, 'v) table \<times> int list
       \<Rightarrow> error + ('f, 'v) table \<times> int list" where
  "flush_statement g (INSERT ko c) (t, im) =
     (let k = assigned_key (keygen g) t ko
      in if \<not> in_key_range k then Inl OverflowError
         else if k \<in> set (map fst t) then Inl IntegrityError
         else if \<not> accepts g c then Inl IntegrityError
         else Inr (insort_key fst (k, c) t, k # im))"
| "flush_statement g (UPDATE k c) (t, im) =
     (case map_of t k of
        None \<Rightarrow> Inl StaleDataError
      | Some c0 \<Rightarrow>
          if c = c0 then Inr (t, im)
          else if \<not> accepts g c then Inl IntegrityError
          else Inr (map (\<lambda>r. if fst r = k then (k, c) else r) t, im))"
| "flush_statement g (DELETE k) (t, im) =
     Inr (filter (\<lambda>r. fst r \<noteq> k) t, filter (\<lambda>j. j \<noteq> k) im)"

fun flush ::
    "('f, 'v) Engine \<Rightarrow> ('f, 'v) statement list \<Rightarrow> ('f, 'v) table \<times> int list
       \<Rightarrow> error + ('f, 'v) table \<times> int list" where
  "flush g [] st = Inr st"
| "flush g (x # xs) st =
     (case flush_statement g x st of
        Inl e \<Rightarrow> Inl e
      | Inr st' \<Rightarrow> flush g xs st')"

text \<open>
  \<^verbatim>\<open>session.commit()\<close>: runs the staged statements in one transaction. When one of
  them fails the exception propagates and the committed table stays as it was.
\<close>

definition session_commit :: "('f, 'v) Session \<Rightarrow> error + ('f, 'v) Session" where
  "session_commit s =
     (case flush (bind s) (pending s) (db s, identity_map s) of
        Inl e \<Rightarrow> Inl e
      | Inr (t, im) \<Rightarrow> Inr (s\<lparr>db := t, identity_map := im, pending := []\<rparr>))"

text \<open>
  \<^verbatim>\<open>session.refresh(obj)\<close>: reloads the columns of an object of the session from its
  row, and raises when the session does not hold the object or the row is gone.
\<close>

definition session_refresh ::
    "('f, 'v) Session \<Rightarrow> ('f, 'v) Event \<Rightarrow> error + ('f, 'v) Event" where
  "session_refresh s obj =
     (case event_id obj of
        None \<Rightarrow> Inl InvalidRequestError
      | Some k \<Rightarrow>
          if k \<in> set (identity_map s)
          then (case map_of (db s) k of
                  None \<Rightarrow> Inl InvalidRequestError
                | Some c \<Rightarrow> Inr (obj\<lparr>cols := c\<rparr>))
          else Inl InvalidRequestError)"

section \<open>The route handlers\<close>

text \<open>
  Every handler returns what the request gets (the raised exception or the response
  body) and the session as the handler leaves it; \<open>db\<close> of that session is the table
  after the request. An exception of a session call propagates out of the handler.
\<close>

definition retrieve_all_events ::
    "('f, 'v) Session \<Rightarrow> (error + ('f, 'v) Event list) \<times> ('f, 'v) Session" where
  "retrieve_all_events session =
     (let (events, s1) = session_exec_select_all session
      in (Inr events, s1))"

definition retrieve_event ::
    "int \<Rightarrow> ('f, 'v) Session \<Rightarrow> (error + ('f, 'v) Event) \<times> ('f, 'v) Session" where
  "retrieve_event i session =
     (case session_get session i of
        (Inl e, s1) \<Rightarrow> (Inl e, s1)
      | (Inr None, s1) \<Rightarrow>
          (Inl (HTTPException HTTP_404_NOT_FOUND ''Event with supplied ID does not exist''), s1)
      | (Inr (Some event), s1) \<Rightarrow> (Inr event, s1))"

text \<open>
  In \<^verbatim>\<open>create_event\<close> the commit gives the new object its primary key, under which
  \<^verbatim>\<open>session.refresh(new_event)\<close> then reloads it; the handler drops the reloaded
  object and answers with the message.
\<close>

definition create_event ::
    "('f, 'v) Event \<Rightarrow> ('f, 'v) Session \<Rightarrow> (error + message) \<times> ('f, 'v) Session" where
  "create_event new_event session =
     (let s1 = session_add session new_event
      in case session_commit s1 of
           Inl e \<Rightarrow> (Inl e, s1)
         | Inr s2 \<Rightarrow>
             (let stored = new_event\<lparr>event_id :=
                    Some (assigned_key (keygen (bind s1)) (db s1) (event_id new_event))\<rparr>
              in case session_refresh s2 stored of
                   Inl e \<Rightarrow> (Inl e, s2)
                 | Inr _ \<Rightarrow> (Inr [(''message'', ''Event created successfully'')], s2)))"

definition update_event ::
    "'f list \<Rightarrow> int \<Rightarrow> ('f, 'v) EventUpdate \<Rightarrow> ('f, 'v) Session
       \<Rightarrow> (error + ('f, 'v) Event) \<times> ('f, 'v) Session" where
  "update_event model_fields i new_data session =
     (case session_get session i of
        (Inl e, s1) \<Rightarrow> (Inl e, s1)
      | (Inr None, s1) \<Rightarrow>
          (Inl (HTTPException HTTP_404_NOT_FOUND ''Event with supplied ID does not exist''), s1)
      | (Inr (Some event), s1) \<Rightarrow>
          (let event_data = model_dump_exclude_unset model_fields new_data;
               event' = fold (\<lambda>(key, val) e. setattr e key val) event_data event;
               s2 = session_add s1 event'
           in case session_commit s2 of
                Inl e \<Rightarrow> (Inl e, s2)
              | Inr s3 \<Rightarrow>
                  (case session_refresh s3 event' of
                     Inl e \<Rightarrow> (Inl e, s3)
                   | Inr event'' \<Rightarrow> (Inr event'', s3))))"

definition delete_event ::
    "int \<Rightarrow> ('f, 'v) Session \<Rightarrow> (error + message) \<times> ('f, 'v) Session" where
  "delete_event i session =
     (case session_get session i of
        (Inl e, s1) \<Rightarrow> (Inl e, s1)
      | (Inr None, s1) \<Rightarrow>
          (Inl (HTTPException HTTP_404_NOT_FOUND ''Event with supplied ID does not exist''), s1)
      | (Inr (Some event), s1) \<Rightarrow>
          (case session_delete s1 event of
             Inl e \<Rightarrow> (Inl e, s1)
           | Inr s2 \<Rightarrow>
               (case session_commit s2 of
                  Inl e \<Rightarrow> (Inl e, s2)
                | Inr s3 \<Rightarrow> (Inr [(''message'', ''Event deleted successfully'')], s3))))"

text \<open>The loop \<^verbatim>\<open>for event in events_to_delete: session.delete(event)\<close>.\<close>

fun delete_each ::
    "('f, 'v) Event list \<Rightarrow> ('f, 'v) Session \<Rightarrow> error + ('f, 'v) Session" where
  "delete_each [] s = Inr s"
| "delete_each (event # events) s =
     (case session_delete s event of
        Inl e \<Rightarrow> Inl e
      | Inr s' \<Rightarrow> delete_each events s')"

definition delete_all_events ::
    "('f, 'v) Session \<Rightarrow> (error + message) \<times> ('f, 'v) Session" where
  "delete_all_events session =
     (let (events_to_delete, s1) = session_exec_select_all session
      in if events_to_delete = []
         then (Inr [(''message'', ''No events found to delete'')], s1)
         else (case delete_each events_to_delete s1 of
                 Inl e \<Rightarrow> (Inl e, s1)
               | Inr s2 \<Rightarrow>
                   (case session_commit s2 of
                      Inl e \<Rightarrow> (Inl e, s2)
                    | Inr s3 \<Rightarrow> (Inr [(''message'', ''All events deleted successfully'')], s3))))"

text \<open>The primary keys in use, and the invariant of a primary key: no key twice.\<close>

definition keys_of :: "('f, 'v) table \<Rightarrow> int set" where
  "keys_of t = fst ` set t"

definition primary_key :: "('f, 'v) table \<Rightarrow> bool" where
  "primary_key t = distinct (map fst t)"

text \<open>
  In the words of the specification: a field of the payload is explicitly set when the
  payload class declares it and the request gave it; a partial update overwrites the
  explicitly set columns with the payload's values and keeps every other column.
\<close>

definition explicitly_set :: "'f list \<Rightarrow> ('f, 'v) EventUpdate \<Rightarrow> 'f \<Rightarrow> bool" where
  "explicitly_set model_fields new_data key =
     (key \<in> set model_fields \<and> key \<in> model_fields_set new_data)"

definition overwritten ::
    "'f list \<Rightarrow> ('f, 'v) EventUpdate \<Rightarrow> ('f \<Rightarrow> 'v) \<Rightarrow> 'f \<Rightarrow> 'v" where
  "overwritten model_fields new_data c key =
     (if explicitly_set model_fields new_data key then field_values new_data key else c key)"

text \<open>
  An example store for the concrete checks: columns named by strings, with string values
  (the empty string for a null); a key generator that gives one more than the largest key
  in use; and a table that wants a title in every row.
\<close>

definition next_key :: "int list \<Rightarrow> int" where
  "next_key ks = fold max ks 0 + 1"

definition titled :: "string \<Rightarrow> string \<Rightarrow> string" where
  "titled x f = (if f = ''title'' then x else [])"

definition has_title :: "(string \<Rightarrow> string) \<Rightarrow> bool" where
  "has_title c = (c ''title'' \<noteq> [])"

definition events_db :: "(string, string) Engine" where
  "events_db = \<lparr>keygen = next_key, accepts = has_title\<rparr>"

definition two_events :: "(string, string) table" where
  "two_events = [(1, titled ''Gala''), (2, titled ''Meetup'')]"

section \<open>What each handler computes\<close>

text \<open>
  The result of every handler on a request's own session, by cases on whether the
  primary key is in the table.
\<close>

subsection \<open>Looking a row up\<close>

lemma map_of_None_keys: "map_of t i = None \<longleftrightarrow> i \<notin> keys_of t"
  by (simp add: keys_of_def map_of_eq_None_iff)

lemma keys_of_iff: "i \<in> keys_of t \<longleftrightarrow> (\<exists>c. (i, c) \<in> set t)"
  by (force simp add: keys_of_def)

lemma get_session_sel:
  "db (get_session g t) = t" "pending (get_session g t) = []"
  by (simp_all add: get_session_def)

lemma session_get_missing:
  "map_of t i = None \<Longrightarrow> in_key_range i \<Longrightarrow>
   session_get (get_session g t) i = (Inr None, get_session g t)"
  by (simp add: session_get_def get_session_def)

lemma session_get_overflow:
  "map_of t i = None \<Longrightarrow> \<not> in_key_range i \<Longrightarrow>
   session_get (get_session g t) i = (Inl OverflowError, get_session g t)"
  by (simp add: session_get_def get_session_def)

lemma session_get_found:
  "map_of t i = Some c \<Longrightarrow>
   session_get (get_session g t) i =
     (Inr (Some \<lparr>event_id = Some i, cols = c\<rparr>),
      \<lparr>db = t, bind = g, identity_map = [i], pending = []\<rparr>)"
  by (simp add: session_get_def get_session_def row_object_def)

lemma primary_key_unique:
  "primary_key t \<Longrightarrow> (i, c) \<in> set t \<Longrightarrow> map_of t i = Some c"
  by (simp add: primary_key_def)

lemma retrieve_event_missing:
  "map_of t i = None \<Longrightarrow> in_key_range i \<Longrightarrow>
   retrieve_event i (get_session g t) =
     (Inl (HTTPException 404 ''Event with supplied ID does not exist''), get_session g t)"
  by (simp add: retrieve_event_def session_get_missing HTTP_404_NOT_FOUND_def)

lemma retrieve_event_overflow:
  "map_of t i = None \<Longrightarrow> \<not> in_key_range i \<Longrightarrow>
   retrieve_event i (get_session g t) = (Inl OverflowError, get_session g t)"
  by (simp add: retrieve_event_def session_get_overflow)

lemma retrieve_event_found:
  "map_of t i = Some c \<Longrightarrow>
   retrieve_event i (get_session g t) =
     (Inr \<lparr>event_id = Some i, cols = c\<rparr>,
      \<lparr>db = t, bind = g, identity_map = [i], pending = []\<rparr>)"
  by (simp add: retrieve_event_def session_get_found)

subsection \<open>The partial update\<close>

lemma fold_setattr_event_id:
  "event_id (fold (\<lambda>(key, val) e. setattr e key val) kvs e) = event_id e"
  by (induction kvs arbitrary: e) (simp_all add: setattr_def split: prod.split)

lemma fold_setattr_dump:
  "cols (fold (\<lambda>(key, val) e. setattr e key val) (model_dump_exclude_unset fs p) e) x
     = overwritten fs p (cols e) x"
proof (induction fs arbitrary: e)
  case Nil
  show ?case
    by (simp add: model_dump_exclude_unset_def overwritten_def explicitly_set_def)
next
  case (Cons k fs)
  have step: "model_dump_exclude_unset (k # fs) p =
      (if k \<in> model_fields_set p then [(k, field_values p k)] else [])
        @ model_dump_exclude_unset fs p"
    by (simp add: model_dump_exclude_unset_def)
  show ?case
    using Cons.IH [of "setattr e k (field_values p k)"] Cons.IH [of e]
    by (simp add: step overwritten_def explicitly_set_def setattr_def)
qed

lemma fold_setattr_object:
  "fold (\<lambda>(key, val) e. setattr e key val) (model_dump_exclude_unset fs p)
      \<lparr>event_id = ko, cols = c\<rparr>
   = \<lparr>event_id = ko, cols = overwritten fs p c\<rparr>"
proof (rule Event.equality)
  show "cols (fold (\<lambda>(key, val) e. setattr e key val) (model_dump_exclude_unset fs p)
      \<lparr>event_id = ko, cols = c\<rparr>) = cols \<lparr>event_id = ko, cols = overwritten fs p c\<rparr>"
    by (rule ext) (simp add: fold_setattr_dump)
qed (simp_all add: fold_setattr_event_id)

lemma map_of_replace_same:
  "map_of t i = Some c \<Longrightarrow>
   map_of (map (\<lambda>r. if fst r = i then (i, c') else r) t) i = Some c'"
  by (induction t) (auto split: if_splits)

lemma map_of_replace_other:
  "j \<noteq> i \<Longrightarrow> map_of (map (\<lambda>r. if fst r = i then (i, c') else r) t) j = map_of t j"
  by (induction t) auto

lemma update_event_missing:
  "map_of t i = None \<Longrightarrow> in_key_range i \<Longrightarrow>
   update_event fs i p (get_session g t) =
     (Inl (HTTPException 404 ''Event with supplied ID does not exist''), get_session g t)"
  by (simp add: update_event_def session_get_missing HTTP_404_NOT_FOUND_def)

lemma update_event_overflow:
  "map_of t i = None \<Longrightarrow> \<not> in_key_range i \<Longrightarrow>
   update_event fs i p (get_session g t) = (Inl OverflowError, get_session g t)"
  by (simp add: update_event_def session_get_overflow)

lemma update_event_kept:
  assumes "map_of t i = Some c" and "overwritten fs p c = c"
  shows "update_event fs i p (get_session g t) =
     (Inr \<lparr>event_id = Some i, cols = c\<rparr>,
      \<lparr>db = t, bind = g, identity_map = [i], pending = []\<rparr>)"
  by (simp add: update_event_def session_get_found [OF assms(1)] fold_setattr_object
      Let_def session_add_def session_commit_def session_refresh_def assms)

lemma update_event_written:
  assumes "map_of t i = Some c" and "overwritten fs p c \<noteq> c"
    and "accepts g (overwritten fs p c)"
  shows "update_event fs i p (get_session g t) =
     (Inr \<lparr>event_id = Some i, cols = overwritten fs p c\<rparr>,
      \<lparr>db = map (\<lambda>r. if fst r = i then (i, overwritten fs p c) else r) t,
       bind = g, identity_map = [i], pending = []\<rparr>)"
  by (simp add: update_event_def session_get_found [OF assms(1)] fold_setattr_object
      Let_def session_add_def session_commit_def session_refresh_def assms
      map_of_replace_same [OF assms(1)])

lemma update_event_refused:
  assumes "map_of t i = Some c" and "overwritten fs p c \<noteq> c"
    and "\<not> accepts g (overwritten fs p c)"
  shows "update_event fs i p (get_session g t) =
     (Inl IntegrityError,
      \<lparr>db = t, bind = g, identity_map = [i], pending = [UPDATE i (overwritten fs p c)]\<rparr>)"
  by (simp add: update_event_def session_get_found [OF assms(1)] fold_setattr_object
      Let_def session_add_def session_commit_def assms)

subsection \<open>Deleting one row\<close>

lemma map_of_filter_same: "map_of (filter (\<lambda>r. fst r \<noteq> i) t) i = None"
  by (induction t) auto

lemma map_of_filter_other: "j \<noteq> i \<Longrightarrow> map_of (filter (\<lambda>r. fst r \<noteq> i) t) j = map_of t j"
  by (induction t) auto

lemma delete_event_missing:
  "map_of t i = None \<Longrightarrow> in_key_range i \<Longrightarrow>
   delete_event i (get_session g t) =
     (Inl (HTTPException 404 ''Event with supplied ID does not exist''), get_session g t)"
  by (simp add: delete_event_def session_get_missing HTTP_404_NOT_FOUND_def)

lemma delete_event_overflow:
  "map_of t i = None \<Longrightarrow> \<not> in_key_range i \<Longrightarrow>
   delete_event i (get_session g t) = (Inl OverflowError, get_session g t)"
  by (simp add: delete_event_def session_get_overflow)

lemma delete_event_found:
  "map_of t i = Some c \<Longrightarrow>
   delete_event i (get_session g t) =
     (Inr [(''message'', ''Event deleted successfully'')],
      \<lparr>db = filter (\<lambda>r. fst r \<noteq> i) t, bind = g, identity_map = [], pending = []\<rparr>)"
  by (simp add: delete_event_def session_get_found session_delete_def session_commit_def)

subsection \<open>Deleting every row\<close>

lemma delete_each_staged:
  "fst ` set rows \<subseteq> set (identity_map s) \<Longrightarrow>
   delete_each (map row_object rows) s
     = Inr (s\<lparr>pending := pending s @ map (\<lambda>r. DELETE (fst r)) rows\<rparr>)"
proof (induction rows arbitrary: s)
  case Nil
  show ?case by simp
next
  case (Cons r rows)
  let ?s' = "s\<lparr>pending := pending s @ [DELETE (fst r)]\<rparr>"
  have "fst ` set rows \<subseteq> set (identity_map ?s')" using Cons.prems by simp
  from Cons.IH [OF this] show ?case
    using Cons.prems by (simp add: session_delete_def row_object_def)
qed

lemma flush_deletes:
  "flush g (map (\<lambda>r. DELETE (fst r)) rows) (t, im)
     = Inr (filter (\<lambda>r. fst r \<notin> fst ` set rows) t, filter (\<lambda>j. j \<notin> fst ` set rows) im)"
proof (induction rows arbitrary: t im)
  case Nil
  show ?case by simp
next
  case (Cons r rows)
  show ?case
    by (simp add: Cons.IH)
qed

lemma delete_all_events_empty:
  "delete_all_events (get_session g []) =
     (Inr [(''message'', ''No events found to delete'')], get_session g [])"
  by (simp add: delete_all_events_def session_exec_select_all_def get_session_def)

lemma delete_all_events_rows:
  assumes "t \<noteq> []"
  shows "delete_all_events (get_session g t) =
     (Inr [(''message'', ''All events deleted successfully'')], get_session g [])"
proof -
  let ?s1 = "\<lparr>db = t, bind = g, identity_map = map fst t, pending = []\<rparr>"
  have sel: "session_exec_select_all (get_session g t) = (map row_object t, ?s1)"
    by (simp add: session_exec_select_all_def get_session_def)
  let ?s2 = "\<lparr>db = t, bind = g, identity_map = map fst t,
             pending = map (\<lambda>r. DELETE (fst r)) t\<rparr>"
  have staged: "delete_each (map row_object t) ?s1 = Inr ?s2"
    using delete_each_staged [of t ?s1] by simp
  have committed: "session_commit ?s2 = Inr (get_session g [])"
    by (simp add: session_commit_def flush_deletes get_session_def)
  show ?thesis
    using assms by (simp add: delete_all_events_def sel staged committed)
qed

subsection \<open>Inserting a row\<close>

lemma session_add_fresh:
  "session_add (get_session g t) e =
     \<lparr>db = t, bind = g, identity_map = [], pending = [INSERT (event_id e) (cols e)]\<rparr>"
  by (simp add: session_add_def get_session_def split: option.split)

lemma map_of_inserted:
  "k \<notin> fst ` set t \<Longrightarrow> map_of (insort_key fst (k, c) t) k = Some c"
  by (induction t) auto

lemma map_of_insert_other:
  "j \<noteq> k \<Longrightarrow> map_of (insort_key fst (k, c) t) j = map_of t j"
  by (induction t) auto

lemma rest_after_insert:
  assumes "k \<notin> fst ` set t"
  shows "filter (\<lambda>r. fst r \<noteq> k) (insort_key fst (k, c) t) = t"
proof -
  have "filter (\<lambda>r. fst r \<noteq> k) (insort_key fst (k, c) t) = filter (\<lambda>r. fst r \<noteq> k) t"
    by (rule filter_insort_triv) simp
  also have "\<dots> = t"
    using assms by (auto simp add: filter_id_conv)
  finally show ?thesis .
qed

lemma create_event_stored:
  assumes "in_key_range (assigned_key (keygen g) t (event_id e))"
    and "assigned_key (keygen g) t (event_id e) \<notin> keys_of t"
    and "accepts g (cols e)"
  shows "create_event e (get_session g t) =
     (Inr [(''message'', ''Event created successfully'')],
      \<lparr>db = insort_key fst (assigned_key (keygen g) t (event_id e), cols e) t, bind = g,
       identity_map = [assigned_key (keygen g) t (event_id e)], pending = []\<rparr>)"
  using assms
  by (simp add: create_event_def session_add_fresh session_commit_def session_refresh_def
      Let_def keys_of_def map_of_inserted)

lemma create_event_overflow:
  assumes "\<not> in_key_range (assigned_key (keygen g) t (event_id e))"
  shows "create_event e (get_session g t) =
     (Inl OverflowError,
      \<lparr>db = t, bind = g, identity_map = [], pending = [INSERT (event_id e) (cols e)]\<rparr>)"
  using assms
  by (simp add: create_event_def session_add_fresh session_commit_def)

lemma create_event_key_in_use:
  assumes "in_key_range (assigned_key (keygen g) t (event_id e))"
    and "assigned_key (keygen g) t (event_id e) \<in> keys_of t"
  shows "create_event e (get_session g t) =
     (Inl IntegrityError,
      \<lparr>db = t, bind = g, identity_map = [], pending = [INSERT (event_id e) (cols e)]\<rparr>)"
  using assms
  by (simp add: create_event_def session_add_fresh session_commit_def keys_of_def)

lemma create_event_refused:
  assumes "in_key_range (assigned_key (keygen g) t (event_id e))"
    and "assigned_key (keygen g) t (event_id e) \<notin> keys_of t"
    and "\<not> accepts g (cols e)"
  shows "create_event e (get_session g t) =
     (Inl IntegrityError,
      \<lparr>db = t, bind = g, identity_map = [], pending = [INSERT (event_id e) (cols e)]\<rparr>)"
  using assms
  by (simp add: create_event_def session_add_fresh session_commit_def keys_of_def)

section \<open>The table under the handlers\<close>

text \<open>
  What the statements of a commit do to the rows, and that every handler keeps the keys
  of the table unique.
\<close>

lemma keys_replace:
  "map fst (map (\<lambda>r. if fst r = i then (i, c') else r) t) = map fst t"
  by (induction t) auto

lemma overwritten_nothing:
  "\<forall>key. \<not> explicitly_set fs p key \<Longrightarrow> overwritten fs p c = c"
  by (rule ext) (simp add: overwritten_def)

lemma length_delete_row:
  "distinct (map fst t) \<Longrightarrow> i \<in> fst ` set t \<Longrightarrow>
   length (filter (\<lambda>r. fst r \<noteq> i) t) + 1 = length t"
proof (induction t)
  case Nil
  then show ?case by simp
next
  case (Cons r t)
  show ?case
  proof (cases "fst r = i")
    case True
    then have "i \<notin> fst ` set t" using Cons.prems(1) by auto
    then have "filter (\<lambda>r. fst r \<noteq> i) t = t" by (auto simp add: filter_id_conv)
    then show ?thesis using True by simp
  next
    case False
    then show ?thesis using Cons by auto
  qed
qed

lemma keys_of_filter: "i \<notin> keys_of (filter (\<lambda>r. fst r \<noteq> i) t)"
  by (auto simp add: keys_of_def)

lemma primary_key_insert:
  "primary_key t \<Longrightarrow> k \<notin> keys_of t \<Longrightarrow> primary_key (insort_key fst (k, c) t)"
  by (simp add: primary_key_def keys_of_def distinct_insort_key)

lemma primary_key_replace:
  "primary_key t \<Longrightarrow> primary_key (map (\<lambda>r. if fst r = i then (i, c') else r) t)"
  by (simp only: primary_key_def keys_replace)

lemma primary_key_filter:
  "primary_key t \<Longrightarrow> primary_key (filter (\<lambda>r. fst r \<noteq> i) t)"
  by (simp add: primary_key_def distinct_map_filter)

lemma update_event_table:
  "db (snd (update_event fs i p (get_session g t))) = t
   \<or> (\<exists>c. map_of t i = Some c \<and> accepts g (overwritten fs p c)
        \<and> fst (update_event fs i p (get_session g t))
            = Inr \<lparr>event_id = Some i, cols = overwritten fs p c\<rparr>
        \<and> db (snd (update_event fs i p (get_session g t)))
            = map (\<lambda>r. if fst r = i then (i, overwritten fs p c) else r) t)"
proof (cases "map_of t i")
  case None
  then show ?thesis
    by (cases "in_key_range i")
      (simp_all add: update_event_missing update_event_overflow get_session_sel)
next
  case (Some c)
  show ?thesis
  proof (cases "overwritten fs p c = c")
    case True
    then show ?thesis by (simp add: update_event_kept [OF Some])
  next
    case False
    then show ?thesis
      by (cases "accepts g (overwritten fs p c)")
        (simp_all add: update_event_written [OF Some] update_event_refused [OF Some] Some)
  qed
qed

lemma create_event_primary_key:
  "primary_key t \<Longrightarrow> primary_key (db (snd (create_event e (get_session g t))))"
proof (cases "in_key_range (assigned_key (keygen g) t (event_id e))")
  case False
  assume "primary_key t"
  then show ?thesis by (simp add: create_event_overflow [OF False])
next
  case True
  assume pk: "primary_key t"
  show ?thesis
  proof (cases "assigned_key (keygen g) t (event_id e) \<in> keys_of t")
    case True
    with pk \<open>in_key_range _\<close> show ?thesis by (simp add: create_event_key_in_use)
  next
    case False
    with pk True show ?thesis
      by (cases "accepts g (cols e)")
        (simp_all add: create_event_stored create_event_refused primary_key_insert)
  qed
qed

lemma update_event_primary_key:
  assumes "primary_key t"
  shows "primary_key (db (snd (update_event fs i p (get_session g t))))"
  using update_event_table [of fs i p g t] assms primary_key_replace [OF assms]
  by (elim disjE exE conjE) simp_all

lemma delete_event_primary_key:
  "primary_key t \<Longrightarrow> primary_key (db (snd (delete_event i (get_session g t))))"
  by (cases "map_of t i"; cases "in_key_range i")
    (simp_all add: delete_event_missing delete_event_overflow delete_event_found
      primary_key_filter get_session_sel)

lemma delete_all_events_primary_key:
  "primary_key (db (snd (delete_all_events (get_session g t))))"
  by (cases "t = []")
    (simp_all add: delete_all_events_empty delete_all_events_rows get_session_sel primary_key_def)

section \<open>The claims\<close>

subsection \<open>Listing the rows\<close>

text \<open>
  C5: for every state of the store, \<^verbatim>\<open>retrieve_all_events\<close> returns exactly the rows
  of the Event table, every row in storage order with nothing paged or cut off; it never
  fails, leaves the table as it is, and returns the empty list when the table is empty.
\<close>

theorem retrieve_all_events_every_row:
  "fst (retrieve_all_events (get_session g t))
     = Inr (map (\<lambda>r. \<lparr>event_id = Some (fst r), cols = snd r\<rparr>) t)
   \<and> db (snd (retrieve_all_events (get_session g t))) = t
   \<and> (t = [] \<longrightarrow> fst (retrieve_all_events (get_session g t)) = Inr [])"
  by (simp add: retrieve_all_events_def session_exec_select_all_def row_object_def
      get_session_def)

theorem retrieve_all_events_every_row_witness:
  "fst (retrieve_all_events (get_session events_db [])) = Inr []
   \<and> fst (retrieve_all_events (get_session events_db two_events))
       = Inr [\<lparr>event_id = Some 1, cols = titled ''Gala''\<rparr>,
              \<lparr>event_id = Some 2, cols = titled ''Meetup''\<rparr>]"
  using retrieve_all_events_every_row [of events_db "[]"]
    retrieve_all_events_every_row [of events_db two_events]
  by (simp add: two_events_def)

subsection \<open>Fetching one row\<close>

text \<open>
  C3, as stated, fails: "for every id, \<^verbatim>\<open>retrieve_event\<close> raises HTTP 404 if and only if
  no such row exists". The handler passes the id on as it receives it, and for an id
  outside the key range of the store, which no row has, the lookup raises
  \<^verbatim>\<open>OverflowError\<close> and not HTTP 404.
\<close>

theorem retrieve_event_out_of_range_counterexample:
  "9223372036854775808 \<notin> keys_of two_events
   \<and> fst (retrieve_event 9223372036854775808 (get_session events_db two_events))
       = Inl OverflowError
   \<and> fst (retrieve_event 9223372036854775808 (get_session events_db two_events))
       \<noteq> Inl (HTTPException 404 ''Event with supplied ID does not exist'')"
proof -
  have absent: "map_of two_events 9223372036854775808 = None"
    by (simp add: two_events_def)
  have outside: "\<not> in_key_range 9223372036854775808"
    by (simp add: in_key_range_def)
  have nokey: "9223372036854775808 \<notin> keys_of two_events"
    by (simp add: keys_of_def two_events_def)
  show ?thesis
    using nokey by (simp add: retrieve_event_overflow [OF absent outside])
qed

text \<open>
  C3, amended: for every id within the key range of the store, \<^verbatim>\<open>retrieve_event\<close>
  raises HTTP 404 with the detail "Event with supplied ID does not exist" if and only if
  no row of the table has that primary key; when a row has the key, the handler returns
  that row (the only such row of a table whose keys are unique). For an id outside the
  range that no row has, the handler raises \<^verbatim>\<open>OverflowError\<close>. The table is left as
  it is.
\<close>

theorem retrieve_event_row_or_404_in_range:
  "(in_key_range i \<longrightarrow>
      (fst (retrieve_event i (get_session g t))
         = Inl (HTTPException 404 ''Event with supplied ID does not exist'')
       \<longleftrightarrow> i \<notin> keys_of t))
   \<and> (i \<in> keys_of t \<longrightarrow>
        (\<exists>c. (i, c) \<in> set t
           \<and> fst (retrieve_event i (get_session g t)) = Inr \<lparr>event_id = Some i, cols = c\<rparr>))
   \<and> (primary_key t \<longrightarrow>
        (\<forall>c. (i, c) \<in> set t \<longrightarrow>
           fst (retrieve_event i (get_session g t)) = Inr \<lparr>event_id = Some i, cols = c\<rparr>))
   \<and> (\<not> in_key_range i \<and> i \<notin> keys_of t \<longrightarrow>
        fst (retrieve_event i (get_session g t)) = Inl OverflowError)
   \<and> db (snd (retrieve_event i (get_session g t))) = t"
proof (cases "map_of t i")
  case None
  have absent: "i \<notin> keys_of t" using None by (simp add: map_of_None_keys)
  then have norow: "\<And>c. (i, c) \<notin> set t" by (simp add: keys_of_iff)
  show ?thesis
  proof (cases "in_key_range i")
    case True
    with absent norow show ?thesis
      by (simp add: retrieve_event_missing [OF None True] get_session_sel)
  next
    case False
    with absent norow show ?thesis
      by (simp add: retrieve_event_overflow [OF None False] get_session_sel)
  qed
next
  case (Some c)
  have present: "i \<in> keys_of t" using Some map_of_None_keys [of t i] by simp
  have row: "(i, c) \<in> set t" using Some by (rule map_of_SomeD)
  have only: "\<And>c'. primary_key t \<Longrightarrow> (i, c') \<in> set t \<Longrightarrow> c' = c"
    using Some primary_key_unique by fastforce
  show ?thesis
    using present row only by (auto simp add: retrieve_event_found [OF Some])
qed

theorem retrieve_event_row_or_404_in_range_witness:
  "in_key_range 2 \<and> 2 \<in> keys_of two_events \<and> primary_key two_events
   \<and> (2, titled ''Meetup'') \<in> set two_events
   \<and> fst (retrieve_event 2 (get_session events_db two_events))
       = Inr \<lparr>event_id = Some 2, cols = titled ''Meetup''\<rparr>
   \<and> in_key_range 3 \<and> 3 \<notin> keys_of two_events
   \<and> fst (retrieve_event 3 (get_session events_db two_events))
       = Inl (HTTPException 404 ''Event with supplied ID does not exist'')"
  using retrieve_event_row_or_404_in_range [of 2 events_db two_events]
    retrieve_event_row_or_404_in_range [of 3 events_db two_events]
  by (simp add: in_key_range_def keys_of_def primary_key_def two_events_def)

subsection \<open>Creating a row\<close>

text \<open>
  C6, as stated, fails: "for every input event, \<^verbatim>\<open>create_event\<close> inserts that row and
  returns the fixed message". An event that carries a primary key already in the table is
  not inserted: the commit raises an integrity error and the table stays as it was.
\<close>

theorem create_event_key_in_use_counterexample:
  "fst (create_event \<lparr>event_id = Some 1, cols = titled ''Encore''\<rparr>
          (get_session events_db two_events)) = Inl IntegrityError
   \<and> fst (create_event \<lparr>event_id = Some 1, cols = titled ''Encore''\<rparr>
          (get_session events_db two_events)) \<noteq> Inr [(''message'', ''Event created successfully'')]
   \<and> db (snd (create_event \<lparr>event_id = Some 1, cols = titled ''Encore''\<rparr>
          (get_session events_db two_events))) = two_events"
proof -
  have inside: "in_key_range (assigned_key (keygen events_db) two_events
          (event_id \<lparr>event_id = Some 1, cols = titled ''Encore''\<rparr>))"
    by (simp add: assigned_key_def in_key_range_def)
  have used: "assigned_key (keygen events_db) two_events
          (event_id \<lparr>event_id = Some 1, cols = titled ''Encore''\<rparr>) \<in> keys_of two_events"
    by (simp add: assigned_key_def keys_of_def two_events_def)
  show ?thesis by (simp add: create_event_key_in_use [OF inside used])
qed

text \<open>
  C6, amended: for every input event whose primary key (its own, or the generated one when
  it carries none) is within the key range of the store and not in the Event table, and
  whose columns the table accepts, \<^verbatim>\<open>create_event\<close> inserts that single row (the table
  afterwards holds the row under that key, and without it is the table as before),
  commits, and returns the message "Event created successfully". When the key is in use
  or the columns are not accepted the commit raises an integrity error, when the key is
  outside the range it raises \<^verbatim>\<open>OverflowError\<close>, and in both cases the table is
  unchanged. Whenever the handler returns, the message is that same one.
\<close>

theorem create_event_inserts_accepted_row:
  "(in_key_range (assigned_key (keygen g) t (event_id e))
      \<and> assigned_key (keygen g) t (event_id e) \<notin> keys_of t \<and> accepts g (cols e) \<longrightarrow>
      fst (create_event e (get_session g t)) = Inr [(''message'', ''Event created successfully'')]
      \<and> map_of (db (snd (create_event e (get_session g t))))
            (assigned_key (keygen g) t (event_id e)) = Some (cols e)
      \<and> filter (\<lambda>r. fst r \<noteq> assigned_key (keygen g) t (event_id e))
            (db (snd (create_event e (get_session g t)))) = t
      \<and> length (db (snd (create_event e (get_session g t)))) = length t + 1
      \<and> pending (snd (create_event e (get_session g t))) = [])
   \<and> (in_key_range (assigned_key (keygen g) t (event_id e))
      \<and> (assigned_key (keygen g) t (event_id e) \<in> keys_of t \<or> \<not> accepts g (cols e)) \<longrightarrow>
      fst (create_event e (get_session g t)) = Inl IntegrityError
      \<and> db (snd (create_event e (get_session g t))) = t)
   \<and> (\<not> in_key_range (assigned_key (keygen g) t (event_id e)) \<longrightarrow>
      fst (create_event e (get_session g t)) = Inl OverflowError
      \<and> db (snd (create_event e (get_session g t))) = t)
   \<and> (\<forall>m. fst (create_event e (get_session g t)) = Inr m \<longrightarrow>
         m = [(''message'', ''Event created successfully'')])"
proof (cases "in_key_range (assigned_key (keygen g) t (event_id e))")
  case False
  then show ?thesis by (simp add: create_event_overflow [OF False])
next
  case True
  show ?thesis
  proof (cases "assigned_key (keygen g) t (event_id e) \<in> keys_of t")
    case used: True
    with True show ?thesis by (simp add: create_event_key_in_use [OF True used])
  next
    case free: False
    show ?thesis
    proof (cases "accepts g (cols e)")
      case ok: True
      have "assigned_key (keygen g) t (event_id e) \<notin> fst ` set t"
        using free by (simp add: keys_of_def)
      then show ?thesis
        using True free ok
        by (simp add: create_event_stored [OF True free ok] map_of_inserted
            rest_after_insert length_insort)
    next
      case no: False
      with True free show ?thesis by (simp add: create_event_refused [OF True free no])
    qed
  qed
qed

theorem create_event_inserts_accepted_row_witness:
  "in_key_range (assigned_key (keygen events_db) two_events
       (event_id \<lparr>event_id = None, cols = titled ''Encore''\<rparr>))
   \<and> assigned_key (keygen events_db) two_events
       (event_id \<lparr>event_id = None, cols = titled ''Encore''\<rparr>) \<notin> keys_of two_events
   \<and> accepts events_db (cols \<lparr>event_id = None, cols = titled ''Encore''\<rparr>)
   \<and> fst (create_event \<lparr>event_id = None, cols = titled ''Encore''\<rparr>
            (get_session events_db two_events))
       = Inr [(''message'', ''Event created successfully'')]
   \<and> map_of (db (snd (create_event \<lparr>event_id = None, cols = titled ''Encore''\<rparr>
            (get_session events_db two_events)))) 3 = Some (titled ''Encore'')
   \<and> filter (\<lambda>r. fst r \<noteq> 3)
        (db (snd (create_event \<lparr>event_id = None, cols = titled ''Encore''\<rparr>
            (get_session events_db two_events)))) = two_events"
proof -
  have key: "assigned_key (keygen events_db) two_events
      (event_id \<lparr>event_id = None, cols = titled ''Encore''\<rparr>) = 3"
    by (simp add: assigned_key_def events_db_def next_key_def two_events_def)
  have inside: "in_key_range (assigned_key (keygen events_db) two_events
      (event_id \<lparr>event_id = None, cols = titled ''Encore''\<rparr>))"
    unfolding key by (simp add: in_key_range_def)
  have free: "assigned_key (keygen events_db) two_events
      (event_id \<lparr>event_id = None, cols = titled ''Encore''\<rparr>) \<notin> keys_of two_events"
    unfolding key by (simp add: keys_of_def two_events_def)
  have ok: "accepts events_db (cols \<lparr>event_id = None, cols = titled ''Encore''\<rparr>)"
    by (simp add: events_db_def has_title_def titled_def)
  note stored = create_event_inserts_accepted_row
    [of events_db two_events "\<lparr>event_id = None, cols = titled ''Encore''\<rparr>",
      THEN conjunct1, THEN mp, OF conjI [OF inside conjI [OF free ok]]]
  have row: "map_of (db (snd (create_event \<lparr>event_id = None, cols = titled ''Encore''\<rparr>
            (get_session events_db two_events)))) 3 = Some (titled ''Encore'')"
    using stored [THEN conjunct2, THEN conjunct1] unfolding key by simp
  have rest: "filter (\<lambda>r. fst r \<noteq> 3)
        (db (snd (create_event \<lparr>event_id = None, cols = titled ''Encore''\<rparr>
            (get_session events_db two_events)))) = two_events"
    using stored [THEN conjunct2, THEN conjunct2, THEN conjunct1] unfolding key .
  show ?thesis
    using inside free ok stored [THEN conjunct1] row rest by (intro conjI)
qed

subsection \<open>Updating a row\<close>

text \<open>
  C1, as stated, fails: "for every id and every update payload, \<^verbatim>\<open>update_event\<close> raises
  HTTP 404 if and only if no Event row with primary key id exists". For an id outside the
  key range of the store, which no row has, the lookup raises \<^verbatim>\<open>OverflowError\<close> and
  not HTTP 404.
\<close>

theorem update_event_out_of_range_counterexample:
  "9223372036854775808 \<notin> keys_of two_events
   \<and> fst (update_event [''title'', ''location''] 9223372036854775808
            \<lparr>field_values = titled ''Party'', model_fields_set = {''title''}\<rparr>
            (get_session events_db two_events)) = Inl OverflowError
   \<and> fst (update_event [''title'', ''location''] 9223372036854775808
            \<lparr>field_values = titled ''Party'', model_fields_set = {''title''}\<rparr>
            (get_session events_db two_events))
       \<noteq> Inl (HTTPException 404 ''Event with supplied ID does not exist'')"
proof -
  have absent: "map_of two_events 9223372036854775808 = None"
    by (simp add: two_events_def)
  have outside: "\<not> in_key_range 9223372036854775808"
    by (simp add: in_key_range_def)
  have nokey: "9223372036854775808 \<notin> keys_of two_events"
    by (simp add: keys_of_def two_events_def)
  show ?thesis
    using nokey by (simp add: update_event_overflow [OF absent outside])
qed

text \<open>
  C1, amended: for every id within the key range of the store and every payload,
  \<^verbatim>\<open>update_event\<close> raises HTTP 404 if and only if no row of the table has primary key
  id; when the row exists and the table accepts the updated columns, the handler
  overwrites exactly the columns that are explicitly set in the payload with the payload's
  values (a column that is not explicitly set keeps the row's value), commits (the stored
  row is the returned one and nothing stays pending), and returns the updated row. When
  the table does not accept the changed columns the commit raises an integrity error,
  for an id outside the range that no row has the handler raises \<^verbatim>\<open>OverflowError\<close>,
  and in both cases the table is unchanged.
\<close>

theorem update_event_partial_update_in_range:
  "(in_key_range i \<longrightarrow>
      (fst (update_event fs i p (get_session g t))
         = Inl (HTTPException 404 ''Event with supplied ID does not exist'')
       \<longleftrightarrow> i \<notin> keys_of t))
   \<and> (\<forall>c. map_of t i = Some c \<and> accepts g (overwritten fs p c) \<longrightarrow>
        (\<exists>e. fst (update_event fs i p (get_session g t)) = Inr e
           \<and> event_id e = Some i
           \<and> (\<forall>key. cols e key =
                 (if explicitly_set fs p key then field_values p key else c key))
           \<and> map_of (db (snd (update_event fs i p (get_session g t)))) i = Some (cols e)
           \<and> pending (snd (update_event fs i p (get_session g t))) = []))
   \<and> (\<forall>c. map_of t i = Some c \<and> overwritten fs p c \<noteq> c
           \<and> \<not> accepts g (overwritten fs p c) \<longrightarrow>
        fst (update_event fs i p (get_session g t)) = Inl IntegrityError
        \<and> db (snd (update_event fs i p (get_session g t))) = t)
   \<and> (\<not> in_key_range i \<and> i \<notin> keys_of t \<longrightarrow>
        fst (update_event fs i p (get_session g t)) = Inl OverflowError
        \<and> db (snd (update_event fs i p (get_session g t))) = t)"
proof (cases "map_of t i")
  case None
  have absent: "i \<notin> keys_of t" using None by (simp add: map_of_None_keys)
  show ?thesis
  proof (cases "in_key_range i")
    case True
    with absent None show ?thesis
      by (simp add: update_event_missing [OF None True] get_session_sel)
  next
    case False
    with absent None show ?thesis
      by (simp add: update_event_overflow [OF None False] get_session_sel)
  qed
next
  case (Some c)
  have present: "i \<in> keys_of t" using Some map_of_None_keys [of t i] by simp
  show ?thesis
  proof (cases "overwritten fs p c = c")
    case True
    have run: "update_event fs i p (get_session g t) =
        (Inr \<lparr>event_id = Some i, cols = overwritten fs p c\<rparr>,
         \<lparr>db = t, bind = g, identity_map = [i], pending = []\<rparr>)"
      using update_event_kept [OF Some True, of g] True by simp
    show ?thesis
      using present Some True by (simp add: run overwritten_def)
  next
    case False
    show ?thesis
    proof (cases "accepts g (overwritten fs p c)")
      case ok: True
      have stored: "map_of (map (\<lambda>r. if fst r = i then (i, overwritten fs p c) else r) t) i
          = Some (overwritten fs p c)"
        using Some by (rule map_of_replace_same)
      show ?thesis
        using present Some ok stored
        by (simp add: update_event_written [OF Some False ok] overwritten_def)
    next
      case no: False
      show ?thesis
        using present Some no False
        by (simp add: update_event_refused [OF Some False no])
    qed
  qed
qed

theorem update_event_partial_update_in_range_witness:
  "in_key_range 2 \<and> map_of two_events 2 = Some (titled ''Meetup'')
   \<and> accepts events_db (overwritten [''title'', ''location'']
        \<lparr>field_values = titled ''Party'', model_fields_set = {''title''}\<rparr> (titled ''Meetup''))
   \<and> (\<exists>e. fst (update_event [''title'', ''location''] 2
                 \<lparr>field_values = titled ''Party'', model_fields_set = {''title''}\<rparr>
                 (get_session events_db two_events)) = Inr e
          \<and> event_id e = Some 2
          \<and> cols e ''title'' = ''Party''
          \<and> cols e ''location'' = titled ''Meetup'' ''location'')
   \<and> in_key_range 3 \<and> 3 \<notin> keys_of two_events
   \<and> fst (update_event [''title'', ''location''] 3
            \<lparr>field_values = titled ''Party'', model_fields_set = {''title''}\<rparr>
            (get_session events_db two_events))
       = Inl (HTTPException 404 ''Event with supplied ID does not exist'')"
proof -
  have r2: "in_key_range 2" and r3: "in_key_range 3" by (simp_all add: in_key_range_def)
  have row: "map_of two_events 2 = Some (titled ''Meetup'')" by (simp add: two_events_def)
  have ok: "accepts events_db (overwritten [''title'', ''location'']
        \<lparr>field_values = titled ''Party'', model_fields_set = {''title''}\<rparr> (titled ''Meetup''))"
    by (simp add: events_db_def has_title_def overwritten_def explicitly_set_def titled_def)
  have absent: "3 \<notin> keys_of two_events" by (simp add: keys_of_def two_events_def)
  note found = update_event_partial_update_in_range
    [of 2 "[''title'', ''location'']"
      "\<lparr>field_values = titled ''Party'', model_fields_set = {''title''}\<rparr>" events_db two_events,
      THEN conjunct2, THEN conjunct1, THEN spec, THEN mp, OF conjI [OF row ok]]
  have updated: "\<exists>e. fst (update_event [''title'', ''location''] 2
                 \<lparr>field_values = titled ''Party'', model_fields_set = {''title''}\<rparr>
                 (get_session events_db two_events)) = Inr e
          \<and> event_id e = Some 2
          \<and> cols e ''title'' = ''Party''
          \<and> cols e ''location'' = titled ''Meetup'' ''location''"
  proof -
    from found obtain e where e:
      "fst (update_event [''title'', ''location''] 2
                 \<lparr>field_values = titled ''Party'', model_fields_set = {''title''}\<rparr>
                 (get_session events_db two_events)) = Inr e"
      "event_id e = Some 2"
      "\<forall>key. cols e key =
         (if explicitly_set [''title'', ''location'']
               \<lparr>field_values = titled ''Party'', model_fields_set = {''title''}\<rparr> key
          then field_values \<lparr>field_values = titled ''Party'', model_fields_set = {''title''}\<rparr> key
          else titled ''Meetup'' key)"
      by blast
    have "cols e ''title'' = ''Party''"
      using e(3) [THEN spec, of "''title''"] by (simp add: explicitly_set_def titled_def)
    moreover have "cols e ''location'' = titled ''Meetup'' ''location''"
      using e(3) [THEN spec, of "''location''"] by (simp add: explicitly_set_def)
    ultimately show ?thesis using e(1,2) by blast
  qed
  have missing: "fst (update_event [''title'', ''location''] 3
            \<lparr>field_values = titled ''Party'', model_fields_set = {''title''}\<rparr>
            (get_session events_db two_events))
       = Inl (HTTPException 404 ''Event with supplied ID does not exist'')"
    using update_event_partial_update_in_range
      [of 3 "[''title'', ''location'']"
        "\<lparr>field_values = titled ''Party'', model_fields_set = {''title''}\<rparr>" events_db two_events,
        THEN conjunct1, THEN mp, OF r3] absent
    by simp
  show ?thesis
    using r2 row ok updated r3 absent missing by (intro conjI)
qed

text \<open>
  C7: \<^verbatim>\<open>update_event\<close> changes at most the row with the given primary key: every
  other key still maps to the same columns, the keys of the table and the rows under
  other keys stay where they were, and in the updated row every column that the payload
  does not set explicitly keeps its previous value.
\<close>

theorem update_event_frame:
  "(\<forall>j. j \<noteq> i \<longrightarrow>
       map_of (db (snd (update_event fs i p (get_session g t)))) j = map_of t j)
   \<and> map fst (db (snd (update_event fs i p (get_session g t)))) = map fst t
   \<and> (\<forall>n. n < length t \<and> fst (t ! n) \<noteq> i \<longrightarrow>
         db (snd (update_event fs i p (get_session g t))) ! n = t ! n)
   \<and> (\<forall>c key. map_of t i = Some c \<and> \<not> explicitly_set fs p key \<longrightarrow>
         (\<exists>c'. map_of (db (snd (update_event fs i p (get_session g t)))) i = Some c'
            \<and> c' key = c key))"
proof -
  from update_event_table [of fs i p g t] show ?thesis
  proof (elim disjE exE conjE)
    assume "db (snd (update_event fs i p (get_session g t))) = t"
    then show ?thesis by simp
  next
    fix c
    assume row: "map_of t i = Some c"
      and tab: "db (snd (update_event fs i p (get_session g t)))
          = map (\<lambda>r. if fst r = i then (i, overwritten fs p c) else r) t"
    have stored: "map_of (map (\<lambda>r. if fst r = i then (i, overwritten fs p c) else r) t) i
        = Some (overwritten fs p c)"
      using row by (rule map_of_replace_same)
    show ?thesis
      using row stored
      by (simp add: tab map_of_replace_other keys_replace overwritten_def del: map_map)
  qed
qed

theorem update_event_frame_witness:
  "(1 :: int) \<noteq> 2
   \<and> map_of (db (snd (update_event [''title'', ''location''] 2
                 \<lparr>field_values = titled ''Party'', model_fields_set = {''title''}\<rparr>
                 (get_session events_db two_events)))) 1 = map_of two_events 1
   \<and> 0 < length two_events \<and> fst (two_events ! 0) \<noteq> 2
   \<and> db (snd (update_event [''title'', ''location''] 2
                 \<lparr>field_values = titled ''Party'', model_fields_set = {''title''}\<rparr>
                 (get_session events_db two_events))) ! 0 = two_events ! 0
   \<and> map_of two_events 2 = Some (titled ''Meetup'')
   \<and> \<not> explicitly_set [''title'', ''location'']
          \<lparr>field_values = titled ''Party'', model_fields_set = {''title''}\<rparr> ''location''
   \<and> (\<exists>c'. map_of (db (snd (update_event [''title'', ''location''] 2
                 \<lparr>field_values = titled ''Party'', model_fields_set = {''title''}\<rparr>
                 (get_session events_db two_events)))) 2 = Some c'
          \<and> c' ''location'' = titled ''Meetup'' ''location'')"
proof -
  have h1: "(1 :: int) \<noteq> 2" by simp
  have h2: "0 < length two_events \<and> fst (two_events ! 0) \<noteq> 2" by (simp add: two_events_def)
  have h3: "map_of two_events 2 = Some (titled ''Meetup'')" by (simp add: two_events_def)
  have h4: "\<not> explicitly_set [''title'', ''location'']
          \<lparr>field_values = titled ''Party'', model_fields_set = {''title''}\<rparr> ''location''"
    by (simp add: explicitly_set_def)
  note frame = update_event_frame [of 2 "[''title'', ''location'']"
        "\<lparr>field_values = titled ''Party'', model_fields_set = {''title''}\<rparr>" events_db two_events]
  note c1 = frame [THEN conjunct1, THEN spec, THEN mp, OF h1]
  note c3 = frame [THEN conjunct2, THEN conjunct2, THEN conjunct1, THEN spec, THEN mp, OF h2]
  note c4 = frame [THEN conjunct2, THEN conjunct2, THEN conjunct2, THEN spec, THEN spec,
      THEN mp, OF conjI [OF h3 h4]]
  show ?thesis
    using h1 c1 h2 [THEN conjunct1] h2 [THEN conjunct2] c3 h3 h4 c4 by (intro conjI)
qed

text \<open>
  C9: for an id in a table with unique keys, \<^verbatim>\<open>update_event\<close> with a payload in which
  no field is explicitly set returns the row as it was and leaves the table exactly as
  it was.
\<close>

theorem update_event_nothing_set:
  assumes "primary_key t" and "i \<in> keys_of t" and "\<forall>key. \<not> explicitly_set fs p key"
  shows "\<exists>c. (i, c) \<in> set t
           \<and> fst (update_event fs i p (get_session g t)) = Inr \<lparr>event_id = Some i, cols = c\<rparr>
           \<and> db (snd (update_event fs i p (get_session g t))) = t"
proof -
  obtain c where row: "(i, c) \<in> set t" using assms(2) by (auto simp add: keys_of_iff)
  have found: "map_of t i = Some c" using assms(1) row by (rule primary_key_unique)
  have same: "overwritten fs p c = c" using assms(3) by (rule overwritten_nothing)
  show ?thesis
    using row by (auto simp add: update_event_kept [OF found same])
qed

theorem update_event_nothing_set_witness:
  "primary_key two_events \<and> 2 \<in> keys_of two_events
   \<and> (\<forall>key. \<not> explicitly_set [''title'', ''location'']
          \<lparr>field_values = titled ''Party'', model_fields_set = {}\<rparr> key)
   \<and> fst (update_event [''title'', ''location''] 2
            \<lparr>field_values = titled ''Party'', model_fields_set = {}\<rparr>
            (get_session events_db two_events))
       = Inr \<lparr>event_id = Some 2, cols = titled ''Meetup''\<rparr>
   \<and> db (snd (update_event [''title'', ''location''] 2
            \<lparr>field_values = titled ''Party'', model_fields_set = {}\<rparr>
            (get_session events_db two_events))) = two_events"
proof -
  have h1: "primary_key two_events" by (simp add: primary_key_def two_events_def)
  have h2: "2 \<in> keys_of two_events" by (simp add: keys_of_def two_events_def)
  have h3: "\<forall>key. \<not> explicitly_set [''title'', ''location'']
          \<lparr>field_values = titled ''Party'', model_fields_set = {}\<rparr> key"
    by (simp add: explicitly_set_def)
  have only: "\<And>c. (2, c) \<in> set two_events \<Longrightarrow> c = titled ''Meetup''"
    by (simp add: two_events_def)
  from update_event_nothing_set [OF h1 h2 h3, of events_db] obtain c where c:
    "(2, c) \<in> set two_events"
    "fst (update_event [''title'', ''location''] 2
            \<lparr>field_values = titled ''Party'', model_fields_set = {}\<rparr>
            (get_session events_db two_events)) = Inr \<lparr>event_id = Some 2, cols = c\<rparr>"
    "db (snd (update_event [''title'', ''location''] 2
            \<lparr>field_values = titled ''Party'', model_fields_set = {}\<rparr>
            (get_session events_db two_events))) = two_events"
    by blast
  have "c = titled ''Meetup''" using c(1) by (rule only)
  then show ?thesis using h1 h2 h3 c(2,3) by simp
qed

subsection \<open>Deleting a row\<close>

text \<open>
  C4, as stated, fails: "for every id, \<^verbatim>\<open>delete_event\<close> raises HTTP 404 if and only if
  no Event row with primary key id exists". For an id outside the key range of the store,
  which no row has, the lookup raises \<^verbatim>\<open>OverflowError\<close> and not HTTP 404.
\<close>

theorem delete_event_out_of_range_counterexample:
  "9223372036854775808 \<notin> keys_of two_events
   \<and> fst (delete_event 9223372036854775808 (get_session events_db two_events))
       = Inl OverflowError
   \<and> fst (delete_event 9223372036854775808 (get_session events_db two_events))
       \<noteq> Inl (HTTPException 404 ''Event with supplied ID does not exist'')
   \<and> db (snd (delete_event 9223372036854775808 (get_session events_db two_events)))
       = two_events"
proof -
  have absent: "map_of two_events 9223372036854775808 = None"
    by (simp add: two_events_def)
  have outside: "\<not> in_key_range 9223372036854775808"
    by (simp add: in_key_range_def)
  have nokey: "9223372036854775808 \<notin> keys_of two_events"
    by (simp add: keys_of_def two_events_def)
  show ?thesis
    using nokey by (simp add: delete_event_overflow [OF absent outside] get_session_sel)
qed

text \<open>
  C4, amended: for every id within the key range of the store, \<^verbatim>\<open>delete_event\<close> raises
  HTTP 404 if and only if no row of the table has primary key id; when the row exists,
  the handler returns the message "Event deleted successfully" and removes exactly that
  row: the table afterwards is the table without the rows under id (one row fewer when
  keys are unique), a subsequent lookup of id finds nothing, and every other key maps to
  the same columns. For an id outside the range that no row has, the handler raises
  \<^verbatim>\<open>OverflowError\<close> and the table is unchanged.
\<close>

theorem delete_event_removes_row_in_range:
  "(in_key_range i \<longrightarrow>
      (fst (delete_event i (get_session g t))
         = Inl (HTTPException 404 ''Event with supplied ID does not exist'')
       \<longleftrightarrow> i \<notin> keys_of t))
   \<and> (in_key_range i \<and> i \<in> keys_of t \<longrightarrow>
        fst (delete_event i (get_session g t)) = Inr [(''message'', ''Event deleted successfully'')]
        \<and> db (snd (delete_event i (get_session g t))) = filter (\<lambda>r. fst r \<noteq> i) t
        \<and> i \<notin> keys_of (db (snd (delete_event i (get_session g t))))
        \<and> fst (retrieve_event i (get_session g (db (snd (delete_event i (get_session g t))))))
            = Inl (HTTPException 404 ''Event with supplied ID does not exist'')
        \<and> (\<forall>j. j \<noteq> i \<longrightarrow>
              map_of (db (snd (delete_event i (get_session g t)))) j = map_of t j)
        \<and> (primary_key t \<longrightarrow> length (db (snd (delete_event i (get_session g t)))) + 1 = length t))
   \<and> (\<not> in_key_range i \<and> i \<notin> keys_of t \<longrightarrow>
        fst (delete_event i (get_session g t)) = Inl OverflowError
        \<and> db (snd (delete_event i (get_session g t))) = t)"
proof (cases "map_of t i")
  case None
  have absent: "i \<notin> keys_of t" using None by (simp add: map_of_None_keys)
  show ?thesis
  proof (cases "in_key_range i")
    case True
    with absent show ?thesis
      by (simp add: delete_event_missing [OF None True])
  next
    case False
    with absent show ?thesis
      by (simp add: delete_event_overflow [OF None False] get_session_sel)
  qed
next
  case (Some c)
  have present: "i \<in> keys_of t" using Some map_of_None_keys [of t i] by simp
  have len: "primary_key t \<Longrightarrow> length (filter (\<lambda>r. fst r \<noteq> i) t) + 1 = length t"
    using present length_delete_row [of t i] by (simp add: primary_key_def keys_of_def)
  have later: "in_key_range i \<Longrightarrow>
      fst (retrieve_event i (get_session g (filter (\<lambda>r. fst r \<noteq> i) t)))
        = Inl (HTTPException 404 ''Event with supplied ID does not exist'')"
    by (simp add: retrieve_event_missing [OF map_of_filter_same])
  show ?thesis
    using present len later
    by (simp add: delete_event_found [OF Some] keys_of_filter map_of_filter_other)
qed

theorem delete_event_removes_row_in_range_witness:
  "in_key_range 1 \<and> 1 \<in> keys_of two_events \<and> primary_key two_events
   \<and> fst (delete_event 1 (get_session events_db two_events))
       = Inr [(''message'', ''Event deleted successfully'')]
   \<and> db (snd (delete_event 1 (get_session events_db two_events))) = [(2, titled ''Meetup'')]
   \<and> length (db (snd (delete_event 1 (get_session events_db two_events)))) + 1
       = length two_events
   \<and> in_key_range 3 \<and> 3 \<notin> keys_of two_events
   \<and> fst (delete_event 3 (get_session events_db two_events))
       = Inl (HTTPException 404 ''Event with supplied ID does not exist'')"
  using delete_event_removes_row_in_range [of 1 events_db two_events]
    delete_event_removes_row_in_range [of 3 events_db two_events]
  by (simp add: in_key_range_def keys_of_def primary_key_def two_events_def)

subsection \<open>Deleting every row\<close>

text \<open>
  C2: on an empty table \<^verbatim>\<open>delete_all_events\<close> returns the message
  "No events found to delete" and leaves the store unchanged; on a non-empty table it
  removes every row, so that the table is empty afterwards, and returns the message
  "All events deleted successfully".
\<close>

theorem delete_all_events_messages:
  "(t = [] \<longrightarrow>
      fst (delete_all_events (get_session g t)) = Inr [(''message'', ''No events found to delete'')]
      \<and> db (snd (delete_all_events (get_session g t))) = t)
   \<and> (t \<noteq> [] \<longrightarrow>
      fst (delete_all_events (get_session g t))
        = Inr [(''message'', ''All events deleted successfully'')]
      \<and> db (snd (delete_all_events (get_session g t))) = [])"
  by (simp add: delete_all_events_empty delete_all_events_rows get_session_sel)

theorem delete_all_events_messages_witness:
  "fst (delete_all_events (get_session events_db []))
       = Inr [(''message'', ''No events found to delete'')]
   \<and> db (snd (delete_all_events (get_session events_db []))) = []
   \<and> two_events \<noteq> []
   \<and> fst (delete_all_events (get_session events_db two_events))
       = Inr [(''message'', ''All events deleted successfully'')]
   \<and> db (snd (delete_all_events (get_session events_db two_events))) = []"
  using delete_all_events_messages [of "[]" events_db]
    delete_all_events_messages [of two_events events_db]
  by (simp add: two_events_def)

text \<open>
  C10: \<^verbatim>\<open>delete_all_events\<close> is idempotent on the store: from every table, a second
  call (on the session of the next request) leaves the same, empty, table as the first
  call alone, and returns the message "No events found to delete".
\<close>

theorem delete_all_events_idempotent:
  "db (snd (delete_all_events (get_session g (db (snd (delete_all_events (get_session g t)))))))
     = db (snd (delete_all_events (get_session g t)))
   \<and> db (snd (delete_all_events (get_session g t))) = []
   \<and> fst (delete_all_events (get_session g (db (snd (delete_all_events (get_session g t))))))
       = Inr [(''message'', ''No events found to delete'')]"
  by (cases "t = []")
    (simp_all add: delete_all_events_empty delete_all_events_rows get_session_sel)

theorem delete_all_events_idempotent_witness:
  "db (snd (delete_all_events (get_session events_db
        (db (snd (delete_all_events (get_session events_db two_events)))))))
     = db (snd (delete_all_events (get_session events_db two_events)))
   \<and> db (snd (delete_all_events (get_session events_db two_events))) = []
   \<and> fst (delete_all_events (get_session events_db
        (db (snd (delete_all_events (get_session events_db two_events))))))
       = Inr [(''message'', ''No events found to delete'')]"
  by (rule delete_all_events_idempotent)

subsection \<open>Failures\<close>

text \<open>
  C8, as stated, fails: "the only failure any of \<^verbatim>\<open>retrieve_event\<close>,
  \<^verbatim>\<open>update_event\<close>, \<^verbatim>\<open>delete_event\<close> produces is HTTP 404 for a missing row". For an
  id outside the key range of the store each of the three raises \<^verbatim>\<open>OverflowError\<close>.
\<close>

theorem only_failure_is_404_counterexample:
  "fst (retrieve_event 9223372036854775808 (get_session events_db two_events))
       = Inl OverflowError
   \<and> fst (update_event [''title''] 9223372036854775808
            \<lparr>field_values = titled ''Party'', model_fields_set = {''title''}\<rparr>
            (get_session events_db two_events)) = Inl OverflowError
   \<and> fst (delete_event 9223372036854775808 (get_session events_db two_events))
       = Inl OverflowError
   \<and> OverflowError \<noteq> HTTPException 404 ''Event with supplied ID does not exist''"
proof -
  have absent: "map_of two_events 9223372036854775808 = None"
    by (simp add: two_events_def)
  have outside: "\<not> in_key_range 9223372036854775808"
    by (simp add: in_key_range_def)
  show ?thesis
    by (simp add: retrieve_event_overflow [OF absent outside]
        update_event_overflow [OF absent outside] delete_event_overflow [OF absent outside])
qed

text \<open>
  C8, amended: for an id within the key range of the store (and, in \<^verbatim>\<open>update_event\<close>,
  updated columns that the table accepts) the only exception that \<^verbatim>\<open>retrieve_event\<close>,
  \<^verbatim>\<open>update_event\<close> and \<^verbatim>\<open>delete_event\<close> raise is HTTP 404 for a primary key that is
  not in the table; and whenever one of the three raises an exception, HTTP 404 or
  another, the Event table is exactly as it was before the call.
\<close>

theorem only_failure_in_range_is_404:
  "(\<forall>e. fst (retrieve_event i (get_session g t)) = Inl e \<longrightarrow>
       db (snd (retrieve_event i (get_session g t))) = t
       \<and> (in_key_range i \<longrightarrow>
            e = HTTPException 404 ''Event with supplied ID does not exist'' \<and> i \<notin> keys_of t))
   \<and> (\<forall>e. fst (update_event fs i p (get_session g t)) = Inl e \<longrightarrow>
       db (snd (update_event fs i p (get_session g t))) = t
       \<and> (in_key_range i \<and> (\<forall>c. map_of t i = Some c \<longrightarrow> accepts g (overwritten fs p c)) \<longrightarrow>
            e = HTTPException 404 ''Event with supplied ID does not exist'' \<and> i \<notin> keys_of t))
   \<and> (\<forall>e. fst (delete_event i (get_session g t)) = Inl e \<longrightarrow>
       db (snd (delete_event i (get_session g t))) = t
       \<and> (in_key_range i \<longrightarrow>
            e = HTTPException 404 ''Event with supplied ID does not exist'' \<and> i \<notin> keys_of t))"
proof (cases "map_of t i")
  case None
  have absent: "i \<notin> keys_of t" using None by (simp add: map_of_None_keys)
  show ?thesis
  proof (cases "in_key_range i")
    case True
    with absent show ?thesis
      by (simp add: retrieve_event_missing [OF None True] update_event_missing [OF None True]
          delete_event_missing [OF None True] get_session_sel)
  next
    case False
    with absent show ?thesis
      by (simp add: retrieve_event_overflow [OF None False] update_event_overflow [OF None False]
          delete_event_overflow [OF None False] get_session_sel)
  qed
next
  case (Some c)
  have upd: "\<forall>e. fst (update_event fs i p (get_session g t)) = Inl e \<longrightarrow>
       db (snd (update_event fs i p (get_session g t))) = t
       \<and> (in_key_range i \<and> (\<forall>c. map_of t i = Some c \<longrightarrow> accepts g (overwritten fs p c)) \<longrightarrow>
            e = HTTPException 404 ''Event with supplied ID does not exist'' \<and> i \<notin> keys_of t)"
  proof (cases "overwritten fs p c = c")
    case True
    show ?thesis by (simp add: update_event_kept [OF Some True])
  next
    case False
    show ?thesis
    proof (cases "accepts g (overwritten fs p c)")
      case ok: True
      show ?thesis by (simp add: update_event_written [OF Some False ok])
    next
      case no: False
      show ?thesis using no by (simp add: update_event_refused [OF Some False no] Some)
    qed
  qed
  show ?thesis
    using upd
    by (simp add: retrieve_event_found [OF Some] delete_event_found [OF Some])
qed

theorem only_failure_in_range_is_404_witness:
  "fst (retrieve_event 3 (get_session events_db two_events))
     = Inl (HTTPException 404 ''Event with supplied ID does not exist'')
   \<and> fst (update_event [''title''] 3
            \<lparr>field_values = titled ''Party'', model_fields_set = {''title''}\<rparr>
            (get_session events_db two_events))
     = Inl (HTTPException 404 ''Event with supplied ID does not exist'')
   \<and> fst (delete_event 3 (get_session events_db two_events))
     = Inl (HTTPException 404 ''Event with supplied ID does not exist'')
   \<and> in_key_range 3
   \<and> 3 \<notin> keys_of two_events
   \<and> db (snd (retrieve_event 3 (get_session events_db two_events))) = two_events
   \<and> db (snd (update_event [''title''] 3
            \<lparr>field_values = titled ''Party'', model_fields_set = {''title''}\<rparr>
            (get_session events_db two_events))) = two_events
   \<and> db (snd (delete_event 3 (get_session events_db two_events))) = two_events"
proof -
  have absent: "map_of two_events 3 = None" by (simp add: two_events_def)
  have inside: "in_key_range 3" by (simp add: in_key_range_def)
  have h1: "fst (retrieve_event 3 (get_session events_db two_events))
     = Inl (HTTPException 404 ''Event with supplied ID does not exist'')"
    by (simp add: retrieve_event_missing [OF absent inside])
  have h2: "fst (update_event [''title''] 3
            \<lparr>field_values = titled ''Party'', model_fields_set = {''title''}\<rparr>
            (get_session events_db two_events))
     = Inl (HTTPException 404 ''Event with supplied ID does not exist'')"
    by (simp add: update_event_missing [OF absent inside])
  have h3: "fst (delete_event 3 (get_session events_db two_events))
     = Inl (HTTPException 404 ''Event with supplied ID does not exist'')"
    by (simp add: delete_event_missing [OF absent inside])
  have ok: "\<forall>c. map_of two_events 3 = Some c \<longrightarrow>
          accepts events_db (overwritten [''title'']
            \<lparr>field_values = titled ''Party'', model_fields_set = {''title''}\<rparr> c)"
    by (simp add: absent)
  note all = only_failure_in_range_is_404 [of 3 events_db two_events "[''title'']"
        "\<lparr>field_values = titled ''Party'', model_fields_set = {''title''}\<rparr>"]
  note r = all [THEN conjunct1, THEN spec, THEN mp, OF h1]
  note u = all [THEN conjunct2, THEN conjunct1, THEN spec, THEN mp, OF h2]
  note d = all [THEN conjunct2, THEN conjunct2, THEN spec, THEN mp, OF h3]
  note absent_key = u [THEN conjunct2, THEN mp, OF conjI [OF inside ok], THEN conjunct2]
  show ?thesis
    using h1 h2 h3 inside absent_key r [THEN conjunct1] u [THEN conjunct1] d [THEN conjunct1]
    by (intro conjI)
qed

end
